theory Spec2Isabelle
  imports Main
begin

section \<open>The KRPano tile acquisition engine (pix360\_krpano/modules.py)\<close>

text \<open>
  Python strings are modelled as \<^typ>\<open>string\<close>: URLs are taken to consist of code points
  below 256, where the only characters matched by the regex class \<open>\d\<close> and stripped by
  \<open>rstrip("0123456789")\<close> are the ASCII digits.
\<close>

subsection \<open>URL classification: the regex tables and \<open>test_url\<close>\<close>

text \<open>
  The three patterns of the source are concatenations of single-character classes, each
  taken once or one-or-more times (\<open>+\<close>), optionally anchored at the start (\<open>^\<close>).
  \<open>re.search\<close> is only ever used through \<open>bool(...)\<close>, so the matcher answers whether a
  match exists.
\<close>

datatype char_class =
    Digit             \<comment> \<open>\<open>\d\<close>\<close>
  | Lit char          \<comment> \<open>a literal character, also an escaped one such as \<open>\_\<close> or \<open>\.\<close>\<close>
  | Dot               \<comment> \<open>\<open>.\<close>: any character except a newline\<close>
  | OneOf string      \<comment> \<open>\<open>[...]\<close>\<close>

datatype quantifier = Once | Many    \<comment> \<open>no quantifier, or \<open>+\<close>\<close>

type_synonym regex = "bool \<times> (char_class \<times> quantifier) list"
  \<comment> \<open>anchored at the start of the string?, and the items of the pattern\<close>

definition is_digit :: "char \<Rightarrow> bool" where
  "is_digit c = (c \<in> set ''0123456789'')"

fun in_class :: "char_class \<Rightarrow> char \<Rightarrow> bool" where
  "in_class Digit c = is_digit c"
| "in_class (Lit d) c = (c = d)"
| "in_class Dot c = (c \<noteq> CHR 0x0A)"
| "in_class (OneOf ds) c = (c \<in> set ds)"

fun match_here :: "(char_class \<times> quantifier) list \<Rightarrow> string \<Rightarrow> bool" where
  "match_here [] s = True"
| "match_here ((k, q) # p) [] = False"
| "match_here ((k, Once) # p) (c # cs) = (if in_class k c then match_here p cs else False)"
| "match_here ((k, Many) # p) (c # cs) =
     (if in_class k c
      then (if match_here p cs then True else match_here ((k, Many) # p) cs)
      else False)"

fun match_anywhere :: "(char_class \<times> quantifier) list \<Rightarrow> string \<Rightarrow> bool" where
  "match_anywhere p [] = match_here p []"
| "match_anywhere p (c # cs) = (if match_here p (c # cs) then True else match_anywhere p cs)"

definition re_search :: "regex \<Rightarrow> string \<Rightarrow> bool" where
  "re_search r s = (if fst r then match_here (snd r) s else match_anywhere (snd r) s)"

text \<open>
  The certainty levels are constants of \<open>pix360core.classes.DownloaderModule\<close>, which is not
  part of this repository; they are kept symbolic.
\<close>

datatype certainty = CERTAINTY_UNSUPPORTED | CERTAINTY_POSSIBLE | CERTAINTY_PROBABLE

type_synonym kwargs = "(string \<times> string) list"

definition rx_full :: regex where
  \<comment> \<open>\<open>\d+/\d+/\d+_\d+\.jpg\<close>\<close>
  "rx_full = (False,
     [(Digit, Many), (Lit CHR ''/'', Once), (Digit, Many), (Lit CHR ''/'', Once),
      (Digit, Many), (Lit CHR ''_'', Once), (Digit, Many), (Lit CHR ''.'', Once),
      (Lit CHR ''j'', Once), (Lit CHR ''p'', Once), (Lit CHR ''g'', Once)])"

definition rx_letter :: regex where
  \<comment> \<open>\<open>\_[frblud].jpg\<close>\<close>
  "rx_letter = (False,
     [(Lit CHR ''_'', Once), (OneOf ''frblud'', Once), (Dot, Once),
      (Lit CHR ''j'', Once), (Lit CHR ''p'', Once), (Lit CHR ''g'', Once)])"

definition rx_digit :: regex where
  \<comment> \<open>\<open>^\d.jpg\<close>\<close>
  "rx_digit = (True,
     [(Digit, Once), (Dot, Once),
      (Lit CHR ''j'', Once), (Lit CHR ''p'', Once), (Lit CHR ''g'', Once)])"

definition REGEX_FULL :: "(regex \<times> certainty \<times> kwargs) list" where
  "REGEX_FULL = [(rx_full, CERTAINTY_PROBABLE, [])]"

definition REGEX_SIMPLE :: "(regex \<times> certainty \<times> kwargs) list" where
  "REGEX_SIMPLE =
     [(rx_letter, CERTAINTY_PROBABLE, []),
      (rx_digit, CERTAINTY_POSSIBLE, [(''tiles'', ''012345'')])]"

text \<open>The \<open>for regex, certainty, kwargs in ...: if bool(re.search(regex, url)): return\<close> loop.\<close>

fun first_match :: "(regex \<times> certainty \<times> kwargs) list \<Rightarrow> string \<Rightarrow> (certainty \<times> kwargs) option" where
  "first_match [] url = None"
| "first_match ((regex, certainty, kw) # rest) url =
     (if re_search regex url then Some (certainty, kw) else first_match rest url)"

definition test_url :: "string \<Rightarrow> certainty" where
  "test_url url =
     (case first_match REGEX_FULL url of
        Some (certainty, kw) \<Rightarrow> certainty
      | None \<Rightarrow>
          (case first_match REGEX_SIMPLE url of
             Some (certainty, kw) \<Rightarrow> certainty
           | None \<Rightarrow> CERTAINTY_UNSUPPORTED))"

subsection \<open>Python values used by the converter\<close>

datatype py_error =
    AssertionError | TypeError | ValueError | IndexError | OverflowError
  | OSError        \<comment> \<open>a transport fault raised by \<open>HTTPRequest(...).open()\<close>\<close>
  | NotModelled    \<comment> \<open>a \<open>%\<close> conversion whose rendering is outside this embedding, see \<open>py_format\<close>\<close>

text \<open>\<open>str(n)\<close> for a non-negative integer.\<close>

definition digit_char :: "nat \<Rightarrow> char" where
  "digit_char d = ''0123456789'' ! d"

fun dec :: "nat \<Rightarrow> string" where
  "dec n = (if n < 10 then [digit_char n] else dec (n div 10) @ [digit_char (n mod 10)])"

declare dec.simps [simp del]

definition digit_val :: "char \<Rightarrow> nat" where
  "digit_val c = of_char c - 48"

subsection \<open>The printf-style operator \<open>str % tuple\<close>\<close>

text \<open>
  \<open>py_format s args\<close> models \<open>s % args\<close> of CPython 3 for a string \<open>s\<close> and a tuple \<open>args\<close>
  of non-negative integers, following \<open>PyUnicode_Format\<close>: the string is read left to
  right; after a \<open>%\<close> come flags, a width, a precision, a length modifier and the conversion
  character. The integer conversions \<open>d\<close>, \<open>i\<close>, \<open>u\<close> and the literal \<open>%%\<close> are rendered;
  the other valid conversions (octal, hexadecimal, floating point, character, \<open>str\<close>) are
  answered \<open>Inl NotModelled\<close>. Every exception of the operator is an \<open>Inl\<close>.
\<close>

record fspec =
  ljust :: bool
  sign  :: bool
  blank :: bool
  alt   :: bool
  zero  :: bool
  width :: "nat option"
  prec  :: "nat option"

definition no_spec :: fspec where
  "no_spec = \<lparr>ljust = False, sign = False, blank = False, alt = False, zero = False,
              width = None, prec = None\<rparr>"

datatype stage = Text | Start | Flags | Width | PostWidth | AfterDot | Prec | PostPrec | Conv

definition SSIZE_MAX :: nat where "SSIZE_MAX = 2 ^ 63 - 1"
definition INT_MAX :: nat where "INT_MAX = 2 ^ 31 - 1"

definition render_int :: "fspec \<Rightarrow> nat \<Rightarrow> string" where
  "render_int sp n =
     (let digits = dec n;
          body = (case prec sp of
                    None \<Rightarrow> digits
                  | Some p \<Rightarrow> replicate (p - length digits) CHR ''0'' @ digits);
          sg = (if sign sp then [CHR ''+''] else if blank sp then [CHR '' ''] else []);
          pad = (case width sp of None \<Rightarrow> 0 | Some w \<Rightarrow> w - (length sg + length body))
      in if ljust sp then sg @ body @ replicate pad CHR '' ''
         else if zero sp then sg @ replicate pad CHR ''0'' @ body
         else replicate pad CHR '' '' @ sg @ body)"

type_synonym step_result = "py_error + (stage \<times> fspec \<times> nat list \<times> string)"

definition conv_step :: "fspec \<Rightarrow> char \<Rightarrow> nat list \<Rightarrow> step_result" where
  "conv_step sp c args =
     (case args of
        [] \<Rightarrow> Inl TypeError
      | a # args' \<Rightarrow>
          if c \<in> set ''diu'' then Inr (Text, no_spec, args', render_int sp a)
          else if c \<in> set ''oxXeEfFgGcrsa'' then Inl NotModelled
          else Inl ValueError)"

definition len_step :: "fspec \<Rightarrow> char \<Rightarrow> nat list \<Rightarrow> step_result" where
  "len_step sp c args =
     (if c \<in> set ''hlL'' then Inr (Conv, sp, args, []) else conv_step sp c args)"

definition dot_step :: "fspec \<Rightarrow> char \<Rightarrow> nat list \<Rightarrow> step_result" where
  "dot_step sp c args =
     (if c = CHR ''.'' then Inr (AfterDot, sp\<lparr>prec := Some 0\<rparr>, args, [])
      else len_step sp c args)"

definition flags_step :: "fspec \<Rightarrow> char \<Rightarrow> nat list \<Rightarrow> step_result" where
  "flags_step sp c args =
     (if c = CHR ''-'' then Inr (Flags, sp\<lparr>ljust := True\<rparr>, args, [])
      else if c = CHR ''+'' then Inr (Flags, sp\<lparr>sign := True\<rparr>, args, [])
      else if c = CHR '' '' then Inr (Flags, sp\<lparr>blank := True\<rparr>, args, [])
      else if c = CHR ''#'' then Inr (Flags, sp\<lparr>alt := True\<rparr>, args, [])
      else if c = CHR ''0'' then Inr (Flags, sp\<lparr>zero := True\<rparr>, args, [])
      else if c = CHR ''*'' then
        (case args of
           [] \<Rightarrow> Inl TypeError
         | a # args' \<Rightarrow>
             if SSIZE_MAX < a then Inl OverflowError
             else Inr (PostWidth, sp\<lparr>width := Some a\<rparr>, args', []))
      else if is_digit c then Inr (Width, sp\<lparr>width := Some (digit_val c)\<rparr>, args, [])
      else dot_step sp c args)"

fun step :: "stage \<Rightarrow> fspec \<Rightarrow> char \<Rightarrow> nat list \<Rightarrow> step_result" where
  "step Text sp c args =
     (if c = CHR ''%'' then Inr (Start, no_spec, args, []) else Inr (Text, no_spec, args, [c]))"
| "step Start sp c args =
     (if c = CHR ''%'' then Inr (Text, no_spec, args, [c])
      else if c = CHR ''('' then Inl TypeError
      else flags_step sp c args)"
| "step Flags sp c args = flags_step sp c args"
| "step Width sp c args =
     (if is_digit c then
        (let w = (case width sp of None \<Rightarrow> 0 | Some w \<Rightarrow> w) in
         if (SSIZE_MAX - digit_val c) div 10 < w then Inl ValueError
         else Inr (Width, sp\<lparr>width := Some (w * 10 + digit_val c)\<rparr>, args, []))
      else dot_step sp c args)"
| "step PostWidth sp c args = dot_step sp c args"
| "step AfterDot sp c args =
     (if c = CHR ''*'' then
        (case args of
           [] \<Rightarrow> Inl TypeError
         | a # args' \<Rightarrow>
             if INT_MAX < a then Inl OverflowError
             else Inr (PostPrec, sp\<lparr>prec := Some a\<rparr>, args', []))
      else if is_digit c then Inr (Prec, sp\<lparr>prec := Some (digit_val c)\<rparr>, args, [])
      else len_step sp c args)"
| "step Prec sp c args =
     (if is_digit c then
        (let p = (case prec sp of None \<Rightarrow> 0 | Some p \<Rightarrow> p) in
         if (INT_MAX - digit_val c) div 10 < p then Inl ValueError
         else Inr (Prec, sp\<lparr>prec := Some (p * 10 + digit_val c)\<rparr>, args, []))
      else len_step sp c args)"
| "step PostPrec sp c args = len_step sp c args"
| "step Conv sp c args = conv_step sp c args"

definition emit :: "string \<Rightarrow> py_error + string \<Rightarrow> py_error + string" where
  "emit out r = (case r of Inl e \<Rightarrow> Inl e | Inr s \<Rightarrow> Inr (out @ s))"

fun run_format :: "stage \<Rightarrow> fspec \<Rightarrow> string \<Rightarrow> nat list \<Rightarrow> py_error + string" where
  "run_format st sp [] args =
     (if st = Text then (if args = [] then Inr [] else Inl TypeError)
      else Inl ValueError)"
| "run_format st sp (c # cs) args =
     (case step st sp c args of
        Inl e \<Rightarrow> Inl e
      | Inr (st', sp', args', out) \<Rightarrow> emit out (run_format st' sp' cs args'))"

definition py_format :: "string \<Rightarrow> nat list \<Rightarrow> py_error + string" where
  "py_format s args = run_format Text no_spec s args"

subsection \<open>The world of one conversion\<close>

text \<open>
  The HTTP transport, the stitchers and the persistence layer belong to \<open>pix360core\<close> and
  are parameters here. \<open>http env url\<close> is what \<open>HTTPRequest(url).open()\<close> gives: an
  exception, or a response with its status code and body. The provider is a function of
  the URL: its answers do not change during one conversion. \<open>fmt env\<close> is the \<open>%\<close> operator
  on strings; \<open>py_format\<close> is the instance used wherever a concrete run is evaluated.
  \<open>File.objects.create\<close> is taken to succeed and to return the record it is given.
\<close>

datatype schema = PyFalse | PyStr string
  \<comment> \<open>what \<open>url_normalize\<close> returns: \<open>False\<close> or the template\<close>

record File =
  file_name :: "string option"
  content :: string
  mime_type :: string

datatype 'm tiles = Stitched 'm | Faces "File list"
  \<comment> \<open>what \<open>make_tiles\<close> returns: the result of \<open>multistitch\<close>, or six files\<close>

type_synonym rotation = "int \<times> int \<times> int"

record ('m, 'e) env =
  http :: "string \<Rightarrow> py_error + int \<times> string"
  fmt :: "string \<Rightarrow> nat list \<Rightarrow> py_error + string"
  multistitch :: "File list list list \<Rightarrow> py_error + 'm"
  cubemap_to_equirectangular :: "'m tiles \<Rightarrow> rotation \<Rightarrow> py_error + 'e"

record conversion =
  url :: string
  properties :: "(string \<times> rotation) list option"
    \<comment> \<open>\<open>None\<close>, or the dict with its rotation-valued entries; \<open>[]\<close> is the empty dict\<close>

text \<open>
  Two logs are kept beside the results. The request log has one entry for every pass
  through a \<open>try\<close> block of a probing loop, \<open>Probe tile zoom y x u\<close>, where \<open>u\<close> is the URL
  that was requested, or \<open>None\<close> when the substitution into the schema raised before any
  request was made; and one entry \<open>Fetch u\<close> for every other request. The call log has one
  entry for every call of a stitcher.
\<close>

datatype request = Probe nat nat nat nat "string option" | Fetch string

datatype 'm call = Multistitch_call "File list list list" | Cubemap_call "'m tiles" rotation

fun requested :: "request \<Rightarrow> string list" where
  "requested (Probe tile zoom y x None) = []"
| "requested (Probe tile zoom y x (Some u)) = [u]"
| "requested (Fetch u) = [u]"

definition wire :: "request list \<Rightarrow> string list" where
  \<comment> \<open>the URLs that were really requested, in order\<close>
  "wire log = concat (map requested log)"

definition fetch_200 :: "('m, 'e) env \<Rightarrow> string \<Rightarrow> py_error + string" where
  \<comment> \<open>\<open>res = HTTPRequest(url).open(); assert res.getcode() == 200; res.read()\<close>\<close>
  "fetch_200 env u =
     (case http env u of
        Inl e \<Rightarrow> Inl e
      | Inr (code, body) \<Rightarrow> if code = 200 then Inr body else Inl AssertionError)"

definition substitute :: "('m, 'e) env \<Rightarrow> schema \<Rightarrow> nat list \<Rightarrow> py_error + string" where
  \<comment> \<open>\<open>schema % (a, b, c, d)\<close>; \<open>False % tuple\<close> is a TypeError\<close>
  "substitute env sch args =
     (case sch of PyFalse \<Rightarrow> Inl TypeError | PyStr s \<Rightarrow> fmt env s args)"

definition probe :: "('m, 'e) env \<Rightarrow> schema \<Rightarrow> nat \<Rightarrow> nat \<Rightarrow> nat \<Rightarrow> nat \<Rightarrow> py_error + string" where
  \<comment> \<open>the body of a \<open>try\<close> block: substitute, request, check the status\<close>
  "probe env sch tile zoom y x =
     (case substitute env sch [tile, zoom, y, x] of
        Inl e \<Rightarrow> Inl e
      | Inr u \<Rightarrow> fetch_200 env u)"

definition probed :: "('m, 'e) env \<Rightarrow> schema \<Rightarrow> nat \<Rightarrow> nat \<Rightarrow> nat \<Rightarrow> nat \<Rightarrow> request" where
  "probed env sch tile zoom y x =
     Probe tile zoom y x
       (case substitute env sch [tile, zoom, y, x] of Inl e \<Rightarrow> None | Inr u \<Rightarrow> Some u)"

definition tile_ok :: "('m, 'e) env \<Rightarrow> schema \<Rightarrow> nat \<Rightarrow> nat \<Rightarrow> nat \<Rightarrow> nat \<Rightarrow> bool" where
  "tile_ok env sch tile zoom y x = (\<not> isl (probe env sch tile zoom y x))"

subsection \<open>\<open>get_max_zoom\<close>\<close>

text \<open>
  The \<open>while True\<close> loops need not end, so they are partial functions into \<open>option\<close>:
  \<open>None\<close> is a run that never returns.
\<close>

partial_function (option) zoom_loop ::
  "('m, 'e) env \<Rightarrow> schema \<Rightarrow> nat \<Rightarrow> request list \<Rightarrow> (nat \<times> request list) option" where
  "zoom_loop env sch l log =
     (case probe env sch 0 (l + 1) 0 0 of
        Inl e \<Rightarrow> Some (l, log @ [probed env sch 0 (l + 1) 0 0])
      | Inr body \<Rightarrow> zoom_loop env sch (l + 1) (log @ [probed env sch 0 (l + 1) 0 0]))"

definition get_max_zoom ::
  "('m, 'e) env \<Rightarrow> schema \<Rightarrow> request list \<Rightarrow> (nat \<times> request list) option" where
  "get_max_zoom env sch log = zoom_loop env sch 0 log"

subsection \<open>\<open>export\<close>\<close>

definition tile_file :: "nat \<Rightarrow> nat \<Rightarrow> nat \<Rightarrow> nat \<Rightarrow> string \<Rightarrow> File" where
  "tile_file tile maxzoom y x body =
     \<lparr>file_name = Some (dec tile @ ''_'' @ dec maxzoom @ ''_'' @ dec y @ ''_'' @ dec x @ ''.jpg''),
      content = body, mime_type = ''image/jpeg''\<rparr>"

text \<open>The inner \<open>while True\<close>: the columns of row \<open>y\<close>, from column \<open>x\<close> on.\<close>

partial_function (option) col_loop ::
  "('m, 'e) env \<Rightarrow> schema \<Rightarrow> nat \<Rightarrow> nat \<Rightarrow> nat \<Rightarrow> nat \<Rightarrow> File list \<Rightarrow> request list
     \<Rightarrow> (File list \<times> request list) option" where
  "col_loop env sch tile maxzoom y x r_array log =
     (case probe env sch tile maxzoom y x of
        Inl e \<Rightarrow> Some (r_array, log @ [probed env sch tile maxzoom y x])
      | Inr body \<Rightarrow>
          col_loop env sch tile maxzoom y (x + 1)
            (r_array @ [tile_file tile maxzoom y x body])
            (log @ [probed env sch tile maxzoom y x]))"

text \<open>The outer \<open>while True\<close>: the rows of one face, from row \<open>y\<close> on.\<close>

partial_function (option) row_loop ::
  "('m, 'e) env \<Rightarrow> schema \<Rightarrow> nat \<Rightarrow> nat \<Rightarrow> nat \<Rightarrow> File list list \<Rightarrow> request list
     \<Rightarrow> (File list list \<times> request list) option" where
  "row_loop env sch tile maxzoom y t_array log =
     Option.bind (col_loop env sch tile maxzoom y 0 [] log)
       (\<lambda>(r_array, log').
          if r_array = [] then Some (t_array, log')
          else row_loop env sch tile maxzoom (y + 1) (t_array @ [r_array]) log')"

text \<open>\<open>for tile in range(6)\<close>, over the list of the remaining face indices.\<close>

fun face_loop ::
  "('m, 'e) env \<Rightarrow> schema \<Rightarrow> nat \<Rightarrow> nat list \<Rightarrow> File list list list \<Rightarrow> request list
     \<Rightarrow> (File list list list \<times> request list) option" where
  "face_loop env sch maxzoom [] output log = Some (output, log)"
| "face_loop env sch maxzoom (tile # rest) output log =
     Option.bind (row_loop env sch tile maxzoom 0 [] log)
       (\<lambda>(t_array, log'). face_loop env sch maxzoom rest (output @ [t_array]) log')"

definition export ::
  "('m, 'e) env \<Rightarrow> schema \<Rightarrow> request list \<Rightarrow> (File list list list \<times> request list) option" where
  "export env sch log =
     Option.bind (get_max_zoom env sch log)
       (\<lambda>(maxzoom, log'). face_loop env sch maxzoom [0..<6] [] log')"

subsection \<open>\<open>url_normalize\<close>\<close>

fun split_on :: "char \<Rightarrow> string \<Rightarrow> string list" where
  \<comment> \<open>\<open>s.split(d)\<close> for a one-character separator\<close>
  "split_on d [] = [[]]"
| "split_on d (c # cs) =
     (if c = d then [] # split_on d cs
      else (case split_on d cs of p # ps \<Rightarrow> (c # p) # ps | [] \<Rightarrow> [[c]]))"

fun join :: "string \<Rightarrow> string list \<Rightarrow> string" where
  \<comment> \<open>\<open>d.join(parts)\<close>\<close>
  "join d [] = []"
| "join d [p] = p"
| "join d (p # q # ps) = p @ d @ join d (q # ps)"

definition rstrip_digits :: "string \<Rightarrow> string" where
  \<comment> \<open>\<open>s.rstrip("0123456789")\<close>\<close>
  "rstrip_digits s = rev (dropWhile is_digit (rev s))"

text \<open>
  Everything is inside one \<open>try\<close> whose handler returns \<open>False\<close>: a failing request, a
  status other than 200, a last segment without underscore (the second \<open>assert\<close>), and the
  IndexError of \<open>parts[-2]\<close> or \<open>parts[-3]\<close> when there are fewer than three segments.
\<close>

definition url_normalize :: "('m, 'e) env \<Rightarrow> string \<Rightarrow> request list \<Rightarrow> schema \<times> request list" where
  "url_normalize env u log =
     (let log' = log @ [Fetch u] in
      case fetch_200 env u of
        Inl e \<Rightarrow> (PyFalse, log')
      | Inr body \<Rightarrow>
          (let parts = split_on CHR ''/'' u; n = length parts in
           if CHR ''_'' \<notin> set (parts ! (n - 1)) then (PyFalse, log')
           else if n < 3 then (PyFalse, log')
           else
             (let parts1 = parts[n - 1 := ''%i_%i.jpg''];
                  parts2 = parts1[n - 2 := ''%i''];
                  parts3 = parts2[n - 3 := rstrip_digits (parts2 ! (n - 3)) @ ''%i'']
              in (PyStr (join ''/'' parts3), log'))))"

subsection \<open>\<open>export_simple\<close>, \<open>export_full\<close>, \<open>make_tiles\<close>, \<open>to_equirectangular\<close>\<close>

definition sibling :: "string \<Rightarrow> char \<Rightarrow> string" where
  \<comment> \<open>\<open>url[:-5] + i + url[-4:]\<close>\<close>
  "sibling u i = take (length u - 5) u @ [i] @ drop (length u - 4) u"

fun simple_loop ::
  "('m, 'e) env \<Rightarrow> string \<Rightarrow> string \<Rightarrow> File list \<Rightarrow> request list
     \<Rightarrow> (py_error + File list) \<times> request list" where
  "simple_loop env u [] output log = (Inr output, log)"
| "simple_loop env u (i # rest) output log =
     (let cur = sibling u i in
      case fetch_200 env cur of
        Inl e \<Rightarrow> (Inl e, log @ [Fetch cur])
      | Inr body \<Rightarrow>
          simple_loop env u rest
            (output @ [\<lparr>file_name = None, content = body, mime_type = ''image/jpeg''\<rparr>])
            (log @ [Fetch cur]))"

definition export_simple ::
  "('m, 'e) env \<Rightarrow> string \<Rightarrow> string \<Rightarrow> request list \<Rightarrow> (py_error + File list) \<times> request list" where
  "export_simple env u tiles log = simple_loop env u tiles [] log"

definition export_full ::
  "('m, 'e) env \<Rightarrow> string \<Rightarrow> ((py_error + 'm) \<times> request list \<times> 'm call list) option" where
  "export_full env u =
     (case url_normalize env u [] of
        (sch, log) \<Rightarrow>
          Option.bind (export env sch log)
            (\<lambda>(images, log'). Some (multistitch env images, log', [Multistitch_call images])))"

definition make_tiles ::
  "('m, 'e) env \<Rightarrow> string \<Rightarrow> ((py_error + 'm tiles) \<times> request list \<times> 'm call list) option" where
  "make_tiles env u =
     (case first_match REGEX_FULL u of
        Some (certainty, kw) \<Rightarrow>
          (if kw \<noteq> [] then Some (Inl TypeError, [], [])
           else Option.bind (export_full env u)
                  (\<lambda>(r, log, calls). Some (map_sum id Stitched r, log, calls)))
      | None \<Rightarrow>
          (case first_match REGEX_SIMPLE u of
             Some (certainty, kw) \<Rightarrow>
               (if \<not> list_all (\<lambda>(k, v). k = ''tiles'') kw then Some (Inl TypeError, [], [])
                else
                  (case export_simple env u
                          (case map_of kw ''tiles'' of None \<Rightarrow> ''frblud'' | Some t \<Rightarrow> t) [] of
                     (r, log) \<Rightarrow> Some (map_sum id Faces r, log, [])))
           | None \<Rightarrow> Some (Inl ValueError, [], [])))"

definition rotation_of :: "conversion \<Rightarrow> rotation" where
  "rotation_of c =
     (case properties c of
        None \<Rightarrow> (0, 0, 0)
      | Some props \<Rightarrow>
          if props = [] then (0, 0, 0)
          else (case map_of props ''rotation'' of None \<Rightarrow> (0, 0, 0) | Some r \<Rightarrow> r))"

definition to_equirectangular ::
  "('m, 'e) env \<Rightarrow> conversion \<Rightarrow> ((py_error + 'e) \<times> request list \<times> 'm call list) option" where
  "to_equirectangular env c =
     Option.bind (make_tiles env (url c))
       (\<lambda>(r, log, calls).
          case r of
            Inl e \<Rightarrow> Some (Inl e, log, calls)
          | Inr stitched \<Rightarrow>
              Some (cubemap_to_equirectangular env stitched (rotation_of c), log,
                    calls @ [Cubemap_call stitched (rotation_of c)]))"

subsection \<open>Vocabulary of the statements\<close>

text \<open>
  A face exposes \<open>R\<close> rows of \<open>C\<close> columns at a zoom level when each of the rows \<open>0..R-1\<close>
  exists (its column 0 is fetchable) and has its tiles exactly in the columns \<open>0..C-1\<close>, and
  row \<open>R\<close> does not exist. Only the tiles the loops look at are constrained, so every
  provider whose tile \<open>(y, x)\<close> is fetchable iff \<open>y < R\<close> and \<open>x < C\<close> qualifies (with at least
  one column when there is a row).
\<close>

definition exposes :: "('m, 'e) env \<Rightarrow> schema \<Rightarrow> nat \<Rightarrow> nat \<Rightarrow> nat \<Rightarrow> nat \<Rightarrow> bool" where
  "exposes env sch tile zoom R C =
     ((\<forall>y \<in> set [0..<R].
         tile_ok env sch tile zoom y 0
         \<and> (\<forall>x \<in> set [0..<C]. tile_ok env sch tile zoom y x)
         \<and> \<not> tile_ok env sch tile zoom y C)
      \<and> \<not> tile_ok env sch tile zoom R 0)"

definition tile_at :: "('m, 'e) env \<Rightarrow> schema \<Rightarrow> nat \<Rightarrow> nat \<Rightarrow> nat \<Rightarrow> nat \<Rightarrow> File" where
  \<comment> \<open>the file recorded for a fetchable tile\<close>
  "tile_at env sch tile zoom y x = tile_file tile zoom y x (projr (probe env sch tile zoom y x))"

definition grid_of :: "('m, 'e) env \<Rightarrow> schema \<Rightarrow> nat \<Rightarrow> nat \<Rightarrow> nat \<Rightarrow> nat \<Rightarrow> File list list" where
  \<comment> \<open>the \<open>R\<close> by \<open>C\<close> grid of a face, row-major\<close>
  "grid_of env sch tile zoom R C =
     map (\<lambda>y. map (\<lambda>x. tile_at env sch tile zoom y x) [0..<C]) [0..<R]"

definition row_probes :: "('m, 'e) env \<Rightarrow> schema \<Rightarrow> nat \<Rightarrow> nat \<Rightarrow> nat \<Rightarrow> nat \<Rightarrow> request list" where
  \<comment> \<open>the probes of row \<open>y\<close>: columns \<open>0..C\<close>, the last one failing\<close>
  "row_probes env sch tile zoom C y = map (\<lambda>x. probed env sch tile zoom y x) [0..<C + 1]"

definition face_probes :: "('m, 'e) env \<Rightarrow> schema \<Rightarrow> nat \<Rightarrow> nat \<Rightarrow> nat \<Rightarrow> nat \<Rightarrow> request list" where
  \<comment> \<open>the probes of a face: its rows in order, then column 0 of row \<open>R\<close>\<close>
  "face_probes env sch tile zoom R C =
     concat (map (row_probes env sch tile zoom C) [0..<R]) @ [probed env sch tile zoom R 0]"

definition zoom_probes :: "('m, 'e) env \<Rightarrow> schema \<Rightarrow> nat \<Rightarrow> request list" where
  \<comment> \<open>the probes of the levels \<open>1..k+1\<close>, in order\<close>
  "zoom_probes env sch k = map (\<lambda>l. probed env sch 0 l 0 0) [1..<k + 2]"

definition face_file :: "('m, 'e) env \<Rightarrow> string \<Rightarrow> char \<Rightarrow> File" where
  \<comment> \<open>the file recorded for the face with letter \<open>i\<close>\<close>
  "face_file env u i =
     \<lparr>file_name = None, content = projr (fetch_200 env (sibling u i)), mime_type = ''image/jpeg''\<rparr>"

fun is_cubemap_call :: "'m call \<Rightarrow> bool" where
  "is_cubemap_call (Cubemap_call stitched rot) = True"
| "is_cubemap_call (Multistitch_call images) = False"

definition six_empty_grids :: "File list list list" where
  "six_empty_grids = [[], [], [], [], [], []]"

definition invalid_schema_probes :: "request list" where
  \<comment> \<open>the passes through the \<open>try\<close> blocks for the schema \<open>False\<close>: no request is made\<close>
  "invalid_schema_probes =
     [Probe 0 1 0 0 None, Probe 0 0 0 0 None, Probe 1 0 0 0 None, Probe 2 0 0 0 None,
      Probe 3 0 0 0 None, Probe 4 0 0 0 None, Probe 5 0 0 0 None]"

subsection \<open>Concrete providers\<close>

text \<open>
  Providers used to run the functions on concrete inputs. The stitchers of these worlds
  return their arguments. The schema is what \<open>url_normalize\<close> makes of the seed URL
  \<open>http://h/p0/1/0_0.jpg\<close>.
\<close>

type_synonym demo_env = "(File list list list, File list list list tiles \<times> rotation) env"

definition provider :: "(string \<Rightarrow> py_error + int \<times> string) \<Rightarrow> demo_env" where
  "provider h =
     \<lparr>http = h, fmt = py_format, multistitch = (\<lambda>images. Inr images),
      cubemap_to_equirectangular = (\<lambda>stitched rot. Inr (stitched, rot))\<rparr>"

definition demo_schema :: schema where
  "demo_schema = PyStr ''http://h/p%i/%i/%i_%i.jpg''"

definition demo_urls :: "string list" where
  \<comment> \<open>face 0 at zoom level 1: two rows of three columns; nothing else\<close>
  "demo_urls =
     [''http://h/p0/1/0_0.jpg'', ''http://h/p0/1/0_1.jpg'', ''http://h/p0/1/0_2.jpg'',
      ''http://h/p0/1/1_0.jpg'', ''http://h/p0/1/1_1.jpg'', ''http://h/p0/1/1_2.jpg'']"

definition demo_env :: demo_env where
  "demo_env = provider (\<lambda>u. if u \<in> set demo_urls then Inr (200, u) else Inr (404, []))"

definition unreachable_env :: demo_env where
  \<comment> \<open>every request raises\<close>
  "unreachable_env = provider (\<lambda>u. Inl OSError)"

definition always_env :: demo_env where
  \<comment> \<open>a server that answers 200 to every URL\<close>
  "always_env = provider (\<lambda>u. Inr (200, []))"

definition flaky_env :: demo_env where
  \<comment> \<open>every tile exists, but the request for level 2 hits a transport fault\<close>
  "flaky_env = provider (\<lambda>u. if u = ''http://h/p0/2/0_0.jpg'' then Inl OSError else Inr (200, []))"

definition six_env :: demo_env where
  \<comment> \<open>a panorama of six whole-face images\<close>
  "six_env =
     provider (\<lambda>u. if u \<in> set (map (sibling ''http://h/pano_f.jpg'') ''frblud'')
                    then Inr (200, u) else Inr (404, []))"

definition demo_conversion :: conversion where
  "demo_conversion =
     \<lparr>url = ''http://h/pano_f.jpg'', properties = Some [(''rotation'', (10, 20, 30))]\<rparr>"

definition missing_seed :: conversion where
  \<comment> \<open>a full-pyramid URL that \<open>demo_env\<close> answers with 404\<close>
  "missing_seed = \<lparr>url = ''http://h/p0/9/0_0.jpg'', properties = None\<rparr>"

definition percent_url :: string where
  \<comment> \<open>a tile URL with a percent-encoded space in a directory name\<close>
  "percent_url = ''http://h/a%20b/p1/2/3_4.jpg''"

section \<open>Evaluation of the formatting operator\<close>

lemma dec_small: "n < 10 \<Longrightarrow> dec n = [digit_char n]"
  by (simp add: dec.simps)

lemma dec_large: "\<not> n < 10 \<Longrightarrow> dec n = dec (n div 10) @ [digit_char (n mod 10)]"
  by (subst dec.simps) simp

lemma emit_emit: "emit a (emit b r) = emit (a @ b) r"
  by (cases r) (simp_all add: emit_def)

lemma emit_Nil: "emit [] r = r"
  by (cases r) (simp_all add: emit_def)

lemma run_text_lit:
  "CHR ''%'' \<notin> set lit \<Longrightarrow>
   run_format Text no_spec (lit @ rest) args = emit lit (run_format Text no_spec rest args)"
proof (induction lit)
  case Nil
  show ?case by (simp add: emit_Nil)
next
  case (Cons c lit)
  then show ?case by (auto simp add: emit_emit)
qed

lemma run_text_percent_i:
  "run_format Text no_spec (CHR ''%'' # CHR ''i'' # rest) (a # args) =
   emit (dec a) (run_format Text no_spec rest args)"
  by (simp add: flags_step_def dot_step_def len_step_def conv_step_def is_digit_def
        render_int_def no_spec_def emit_Nil)

lemma py_format_template:
  assumes "CHR ''%'' \<notin> set p0" "CHR ''%'' \<notin> set p1" "CHR ''%'' \<notin> set p2"
    "CHR ''%'' \<notin> set p3" "CHR ''%'' \<notin> set p4"
  shows "py_format (p0 @ ''%i'' @ p1 @ ''%i'' @ p2 @ ''%i'' @ p3 @ ''%i'' @ p4) [a, b, c, d] =
         Inr (p0 @ dec a @ p1 @ dec b @ p2 @ dec c @ p3 @ dec d @ p4)"
proof -
  have last: "run_format Text no_spec p4 [] = Inr p4"
    using run_text_lit [OF assms(5), of "[]" "[]"] by (simp add: emit_def)
  show ?thesis
    unfolding py_format_def
    by (simp add: run_text_lit assms run_text_percent_i emit_emit last del: run_format.simps)
       (simp add: emit_def)
qed

section \<open>The probing loops\<close>

subsection \<open>The zoom probe\<close>

lemma tile_ok_Inr: "tile_ok env sch t z y x \<Longrightarrow> probe env sch t z y x = Inr (projr (probe env sch t z y x))"
  by (cases "probe env sch t z y x") (simp_all add: tile_ok_def)

lemma not_tile_ok_Inl: "\<not> tile_ok env sch t z y x \<Longrightarrow> \<exists>e. probe env sch t z y x = Inl e"
  by (cases "probe env sch t z y x") (simp_all add: tile_ok_def)

lemma zoom_loop_stop:
  "\<not> tile_ok env sch 0 (l + 1) 0 0 \<Longrightarrow>
   zoom_loop env sch l log = Some (l, log @ [probed env sch 0 (l + 1) 0 0])"
  by (subst zoom_loop.simps) (auto dest: not_tile_ok_Inl)

lemma zoom_loop_go:
  "tile_ok env sch 0 (l + 1) 0 0 \<Longrightarrow>
   zoom_loop env sch l log = zoom_loop env sch (l + 1) (log @ [probed env sch 0 (l + 1) 0 0])"
  by (subst zoom_loop.simps) (auto dest: tile_ok_Inr split: sum.splits simp: tile_ok_def)

lemma zoom_run:
  assumes "\<forall>j. l < j \<and> j \<le> k \<longrightarrow> tile_ok env sch 0 j 0 0"
      and "\<not> tile_ok env sch 0 (k + 1) 0 0" and "l \<le> k"
  shows "zoom_loop env sch l log = Some (k, log @ map (\<lambda>j. probed env sch 0 j 0 0) [l + 1..<k + 2])"
  using assms
proof (induction "k - l" arbitrary: l log)
  case 0
  then have "l = k" by simp
  with 0 show ?case by (simp add: zoom_loop_stop)
next
  case (Suc d)
  then have lk: "l < k" by simp
  with Suc.prems have ok: "tile_ok env sch 0 (l + 1) 0 0" by simp
  have "zoom_loop env sch (l + 1) (log @ [probed env sch 0 (l + 1) 0 0]) =
        Some (k, (log @ [probed env sch 0 (l + 1) 0 0]) @ map (\<lambda>j. probed env sch 0 j 0 0) [(l + 1) + 1..<k + 2])"
    using Suc.hyps(2) Suc.prems lk by (intro Suc.hyps(1)) auto
  moreover have "[l + 1..<k + 2] = (l + 1) # [(l + 1) + 1..<k + 2]"
    using lk by (simp add: upt_conv_Cons)
  ultimately show ?case using ok by (simp add: zoom_loop_go)
qed

lemma zoom_sound:
  "zoom_loop env sch l log = Some r \<Longrightarrow>
   l \<le> fst r \<and> snd r = log @ map (\<lambda>j. probed env sch 0 j 0 0) [l + 1..<fst r + 2]
   \<and> (\<forall>j. l < j \<and> j \<le> fst r \<longrightarrow> tile_ok env sch 0 j 0 0)
   \<and> \<not> tile_ok env sch 0 (fst r + 1) 0 0"
proof (induction rule: zoom_loop.raw_induct [rotated 1, consumes 1])
  case (1 zl env sch l log r)
  show ?case
  proof (cases "probe env sch 0 (l + 1) 0 0")
    case (Inl e)
    with 1(2) have r: "r = (l, log @ [probed env sch 0 (l + 1) 0 0])" by simp
    from Inl have "\<not> tile_ok env sch 0 (l + 1) 0 0" by (simp add: tile_ok_def)
    with r show ?thesis by auto
  next
    case (Inr body)
    with 1(2) have "zl env sch (l + 1) (log @ [probed env sch 0 (l + 1) 0 0]) = Some r" by simp
    from 1(1) [OF this]
    have le: "l + 1 \<le> fst r"
      and lg: "snd r = (log @ [probed env sch 0 (l + 1) 0 0]) @ map (\<lambda>j. probed env sch 0 j 0 0) [l + 1 + 1..<fst r + 2]"
      and ok: "\<forall>j. l + 1 < j \<and> j \<le> fst r \<longrightarrow> tile_ok env sch 0 j 0 0"
      and stop: "\<not> tile_ok env sch 0 (fst r + 1) 0 0"
      by blast+
    have ok1: "tile_ok env sch 0 (l + 1) 0 0" using Inr by (simp add: tile_ok_def)
    have upt: "[l + 1..<fst r + 2] = (l + 1) # [l + 1 + 1..<fst r + 2]"
      using le by (simp add: upt_conv_Cons)
    have "\<forall>j. l < j \<and> j \<le> fst r \<longrightarrow> tile_ok env sch 0 j 0 0"
    proof (intro allI impI)
      fix j assume "l < j \<and> j \<le> fst r"
      then have "j = l + 1 \<or> (l + 1 < j \<and> j \<le> fst r)" by arith
      with ok ok1 show "tile_ok env sch 0 j 0 0" by blast
    qed
    with le lg stop upt show ?thesis by simp
  qed
qed


subsection \<open>Columns, rows and faces\<close>

lemma col_loop_stop:
  "\<not> tile_ok env sch t z y x \<Longrightarrow>
   col_loop env sch t z y x r log = Some (r, log @ [probed env sch t z y x])"
  by (subst col_loop.simps) (auto dest: not_tile_ok_Inl)

lemma col_loop_go:
  "tile_ok env sch t z y x \<Longrightarrow>
   col_loop env sch t z y x r log =
   col_loop env sch t z y (x + 1) (r @ [tile_at env sch t z y x]) (log @ [probed env sch t z y x])"
  by (subst col_loop.simps) (auto simp: tile_ok_def tile_at_def split: sum.splits)

lemma col_run:
  assumes "\<forall>x'. x \<le> x' \<and> x' < C \<longrightarrow> tile_ok env sch t z y x'"
      and "\<not> tile_ok env sch t z y C" and "x \<le> C"
  shows "col_loop env sch t z y x r log =
         Some (r @ map (\<lambda>x'. tile_at env sch t z y x') [x..<C],
               log @ map (\<lambda>x'. probed env sch t z y x') [x..<C + 1])"
  using assms
proof (induction "C - x" arbitrary: x r log)
  case 0
  then have "x = C" by simp
  with 0 show ?case by (simp add: col_loop_stop)
next
  case (Suc d)
  then have lt: "x < C" by simp
  with Suc.prems have ok: "tile_ok env sch t z y x" by simp
  have "col_loop env sch t z y (x + 1) (r @ [tile_at env sch t z y x]) (log @ [probed env sch t z y x]) =
        Some ((r @ [tile_at env sch t z y x]) @ map (\<lambda>x'. tile_at env sch t z y x') [x + 1..<C],
              (log @ [probed env sch t z y x]) @ map (\<lambda>x'. probed env sch t z y x') [x + 1..<C + 1])"
    using Suc.hyps(2) Suc.prems lt by (intro Suc.hyps(1)) auto
  moreover have "[x..<C] = x # [x + 1..<C]" "[x..<C + 1] = x # [x + 1..<C + 1]"
    using lt by (simp_all add: upt_conv_Cons)
  ultimately show ?case using ok by (simp add: col_loop_go)
qed

lemma row_loop_stop:
  "\<not> tile_ok env sch t z y 0 \<Longrightarrow>
   row_loop env sch t z y ta log = Some (ta, log @ [probed env sch t z y 0])"
  by (subst row_loop.simps) (simp add: col_loop_stop)

lemma exposes_row:
  "exposes env sch t z R C \<Longrightarrow> y < R \<Longrightarrow>
   tile_ok env sch t z y 0 \<and> (\<forall>x < C. tile_ok env sch t z y x) \<and> \<not> tile_ok env sch t z y C"
  by (simp add: exposes_def)

lemma exposes_end: "exposes env sch t z R C \<Longrightarrow> \<not> tile_ok env sch t z R 0"
  by (simp add: exposes_def)

lemma exposes_cols: "exposes env sch t z R C \<Longrightarrow> 0 < R \<Longrightarrow> 0 < C"
  by (auto simp: exposes_def intro: ccontr)

lemma row_run:
  assumes "exposes env sch t z R C" and "y \<le> R"
  shows "row_loop env sch t z y ta log =
         Some (ta @ map (\<lambda>y'. map (\<lambda>x. tile_at env sch t z y' x) [0..<C]) [y..<R],
               log @ concat (map (row_probes env sch t z C) [y..<R]) @ [probed env sch t z R 0])"
  using assms(2)
proof (induction "R - y" arbitrary: y ta log)
  case 0
  then have "y = R" by simp
  then show ?case using exposes_end [OF assms(1)] by (simp add: row_loop_stop)
next
  case (Suc d)
  then have lt: "y < R" by simp
  from exposes_row [OF assms(1) lt]
  have ok: "\<forall>x'. 0 \<le> x' \<and> x' < C \<longrightarrow> tile_ok env sch t z y x'"
    and stop: "\<not> tile_ok env sch t z y C" by simp_all
  have C: "0 < C" using exposes_cols [OF assms(1)] lt by simp
  have col: "col_loop env sch t z y 0 [] log =
             Some (map (\<lambda>x'. tile_at env sch t z y x') [0..<C], log @ row_probes env sch t z C y)"
    using col_run [OF ok stop, of "[]" log] by (simp add: row_probes_def)
  have ne: "map (\<lambda>x'. tile_at env sch t z y x') [0..<C] \<noteq> []" using C by simp
  have IH: "row_loop env sch t z (y + 1) (ta @ [map (\<lambda>x'. tile_at env sch t z y x') [0..<C]])
              (log @ row_probes env sch t z C y) =
            Some ((ta @ [map (\<lambda>x'. tile_at env sch t z y x') [0..<C]]) @
                    map (\<lambda>y'. map (\<lambda>x. tile_at env sch t z y' x) [0..<C]) [y + 1..<R],
                  (log @ row_probes env sch t z C y) @
                    concat (map (row_probes env sch t z C) [y + 1..<R]) @ [probed env sch t z R 0])"
    using Suc.hyps(2) lt by (intro Suc.hyps(1)) auto
  have upt: "[y..<R] = y # [y + 1..<R]" using lt by (simp add: upt_conv_Cons)
  show ?case
    by (subst row_loop.simps) (simp only: col Option.bind.simps prod.case ne if_False IH, simp add: upt)
qed




subsection \<open>Termination on a finite tile set\<close>








section \<open>Evaluation on the concrete providers\<close>

lemma provider_sel:
  "http (provider h) = h" "fmt (provider h) = py_format"
  by (simp_all add: provider_def)

lemma demo_substitute:
  "substitute (provider h) demo_schema [t, z, y, x] =
   Inr (''http://h/p'' @ dec t @ ''/'' @ dec z @ ''/'' @ dec y @ ''_'' @ dec x @ ''.jpg'')"
  using py_format_template [of "''http://h/p''" "''/''" "''/''" "''_''" "''.jpg''" t z y x]
  by (simp add: substitute_def demo_schema_def provider_sel)

lemma demo_tile_ok:
  "tile_ok (provider h) demo_schema t z y x =
   (case h (''http://h/p'' @ dec t @ ''/'' @ dec z @ ''/'' @ dec y @ ''_'' @ dec x @ ''.jpg'') of
      Inl e \<Rightarrow> False | Inr (code, body) \<Rightarrow> code = 200)"
  by (simp add: tile_ok_def probe_def demo_substitute fetch_200_def provider_sel
           split: sum.splits prod.splits)

lemma demo_probed:
  "probed (provider h) demo_schema t z y x =
   Probe t z y x (Some (''http://h/p'' @ dec t @ ''/'' @ dec z @ ''/'' @ dec y @ ''_'' @ dec x @ ''.jpg''))"
  by (simp add: probed_def demo_substitute)

lemmas demo_eval = demo_tile_ok demo_probed dec_small digit_char_def demo_urls_def

section \<open>Classification\<close>

text \<open>
  Claim C3. Classification is a function of the URL alone and applies the pattern families
  in fixed order: a match of the full-pyramid pattern gives PROBABLE; otherwise a match of
  the face-letter pattern gives PROBABLE; otherwise a match of the leading-digit pattern
  gives POSSIBLE; otherwise UNSUPPORTED. A URL matching the full-pyramid pattern is
  classified PROBABLE whatever simple pattern it also matches.
\<close>

theorem test_url_priority:
  "test_url u =
     (if re_search rx_full u then CERTAINTY_PROBABLE
      else if re_search rx_letter u then CERTAINTY_PROBABLE
      else if re_search rx_digit u then CERTAINTY_POSSIBLE
      else CERTAINTY_UNSUPPORTED)
   \<and> (re_search rx_full u \<and> (re_search rx_letter u \<or> re_search rx_digit u)
        \<longrightarrow> test_url u = CERTAINTY_PROBABLE)"
  by (simp add: test_url_def REGEX_FULL_def REGEX_SIMPLE_def)

theorem test_url_priority_witness:
  "re_search rx_full ''1xjpg/1/2/3_4.jpg'' \<and> re_search rx_digit ''1xjpg/1/2/3_4.jpg''
   \<and> test_url ''1xjpg/1/2/3_4.jpg'' = CERTAINTY_PROBABLE"
proof -
  have a: "re_search rx_full ''1xjpg/1/2/3_4.jpg''"
    by (simp add: re_search_def rx_full_def is_digit_def)
  have b: "re_search rx_digit ''1xjpg/1/2/3_4.jpg''"
    by (simp add: re_search_def rx_digit_def is_digit_def)
  from test_url_priority [of "''1xjpg/1/2/3_4.jpg''"] a b show ?thesis by simp
qed

section \<open>The zoom probe\<close>

text \<open>
  Claim C2. \<open>get_max_zoom\<close> starts at level 0 and probes the tile (face 0, zoom \<open>l + 1\<close>,
  row 0, column 0) for successive \<open>l\<close>; it returns \<open>k\<close> exactly when the probes of the levels
  \<open>1..k\<close> all succeed and the probe of level \<open>k + 1\<close> fails, that is the largest \<open>k\<close> whose
  levels \<open>1..k\<close> are all reachable (0 when the probe of level 1 fails), and the probes it
  has made are then those of the levels \<open>1, 2, ..., k + 1\<close> in this order, one each, none
  skipped and none repeated.
\<close>

theorem get_max_zoom_largest:
  "get_max_zoom env sch log = Some (k, log') \<longleftrightarrow>
     (\<forall>l \<in> {1..k}. tile_ok env sch 0 l 0 0) \<and> \<not> tile_ok env sch 0 (k + 1) 0 0
     \<and> log' = log @ zoom_probes env sch k"
proof
  assume "get_max_zoom env sch log = Some (k, log')"
  then have "zoom_loop env sch 0 log = Some (k, log')" by (simp add: get_max_zoom_def)
  from zoom_sound [OF this] show
    "(\<forall>l \<in> {1..k}. tile_ok env sch 0 l 0 0) \<and> \<not> tile_ok env sch 0 (k + 1) 0 0
     \<and> log' = log @ zoom_probes env sch k"
    by (simp add: zoom_probes_def)
next
  assume a: "(\<forall>l \<in> {1..k}. tile_ok env sch 0 l 0 0) \<and> \<not> tile_ok env sch 0 (k + 1) 0 0
     \<and> log' = log @ zoom_probes env sch k"
  then have "\<forall>j. 0 < j \<and> j \<le> k \<longrightarrow> tile_ok env sch 0 j 0 0" by simp
  from zoom_run [OF this, of log] a show "get_max_zoom env sch log = Some (k, log')"
    by (simp add: get_max_zoom_def zoom_probes_def)
qed

theorem get_max_zoom_largest_witness:
  "tile_ok demo_env demo_schema 0 1 0 0
   \<and> \<not> tile_ok demo_env demo_schema 0 (1 + 1) 0 0
   \<and> get_max_zoom demo_env demo_schema [] =
       Some (1, [Probe 0 1 0 0 (Some ''http://h/p0/1/0_0.jpg''),
                 Probe 0 2 0 0 (Some ''http://h/p0/2/0_0.jpg'')])"
proof -
  have a: "\<forall>l \<in> {1..1}. tile_ok demo_env demo_schema 0 l 0 0"
    by (simp add: demo_env_def demo_eval)
  have b: "\<not> tile_ok demo_env demo_schema 0 (1 + 1) 0 0"
    by (simp add: demo_env_def demo_eval)
  have c: "zoom_probes demo_env demo_schema 1 =
           [Probe 0 1 0 0 (Some ''http://h/p0/1/0_0.jpg''),
            Probe 0 2 0 0 (Some ''http://h/p0/2/0_0.jpg'')]"
    by (simp add: zoom_probes_def demo_env_def demo_eval upt_rec)
  from get_max_zoom_largest [of demo_env demo_schema "[]" 1 "zoom_probes demo_env demo_schema 1"] a b c
  show ?thesis by simp
qed

section \<open>Providers on which every probe fails\<close>


lemma unreachable_not_ok: "\<not> tile_ok unreachable_env sch t z y x"
  by (simp add: tile_ok_def probe_def fetch_200_def unreachable_env_def provider_sel split: sum.splits)

lemma no_host_not_ok:
  assumes "\<forall>u. isl (http env u)"
  shows "\<not> tile_ok env sch t z y x"
proof -
  have "isl (fetch_200 env u)" for u
    using assms [rule_format, of u] by (cases "http env u") (simp_all add: fetch_200_def)
  then show ?thesis by (simp add: tile_ok_def probe_def split: sum.splits)
qed

text \<open>
  Claim C10. \<open>get_max_zoom\<close> never probes zoom level 0: its first probe is level 1 and every
  probe it makes is of a level at least 1. So it returns 0, a result and not an error, as
  soon as the probe of level 1 fails, whatever the tile (0, 0, 0, 0) is, and in particular
  when no host answers; no tile of the returned level has been looked at then.
\<close>

theorem get_max_zoom_first_probe_level_1:
  "(\<not> tile_ok env sch 0 1 0 0 \<longrightarrow>
      get_max_zoom env sch log = Some (0, log @ [probed env sch 0 1 0 0]))
   \<and> ((\<forall>u. isl (http env u)) \<longrightarrow>
      get_max_zoom env sch log = Some (0, log @ [probed env sch 0 1 0 0]))
   \<and> (get_max_zoom env sch log = Some (k, log') \<longrightarrow>
      (\<exists>new. log' = log @ new \<and> hd new = probed env sch 0 1 0 0
         \<and> (\<forall>r \<in> set new. \<exists>l \<ge> 1. r = probed env sch 0 l 0 0)
         \<and> (\<forall>t y x u. Probe t 0 y x u \<notin> set new)))"
proof (intro conjI impI)
  assume "\<not> tile_ok env sch 0 1 0 0"
  then show "get_max_zoom env sch log = Some (0, log @ [probed env sch 0 1 0 0])"
    using zoom_loop_stop [of env sch 0 log] by (simp add: get_max_zoom_def)
next
  assume "\<forall>u. isl (http env u)"
  then have "\<not> tile_ok env sch 0 1 0 0" by (rule no_host_not_ok)
  then show "get_max_zoom env sch log = Some (0, log @ [probed env sch 0 1 0 0])"
    using zoom_loop_stop [of env sch 0 log] by (simp add: get_max_zoom_def)
next
  assume "get_max_zoom env sch log = Some (k, log')"
  then have "zoom_loop env sch 0 log = Some (k, log')" by (simp add: get_max_zoom_def)
  from zoom_sound [OF this] have lg: "log' = log @ zoom_probes env sch k"
    by (simp add: zoom_probes_def)
  have "[1..<k + 2] = 1 # [Suc 1..<k + 2]"
    by (rule upt_conv_Cons) simp
  then have hd: "hd (zoom_probes env sch k) = probed env sch 0 1 0 0"
    by (simp add: zoom_probes_def del: upt_Suc)
  have lv: "\<forall>r \<in> set (zoom_probes env sch k). \<exists>l \<ge> 1. r = probed env sch 0 l 0 0"
    by (auto simp: zoom_probes_def)
  have "\<forall>t y x u. Probe t 0 y x u \<notin> set (zoom_probes env sch k)"
    by (auto simp: zoom_probes_def probed_def)
  with lg hd lv show "\<exists>new. log' = log @ new \<and> hd new = probed env sch 0 1 0 0
         \<and> (\<forall>r \<in> set new. \<exists>l \<ge> 1. r = probed env sch 0 l 0 0)
         \<and> (\<forall>t y x u. Probe t 0 y x u \<notin> set new)"
    by (intro exI [of _ "zoom_probes env sch k"]) simp
qed

theorem get_max_zoom_first_probe_level_1_witness:
  "\<not> tile_ok unreachable_env demo_schema 0 0 0 0
   \<and> get_max_zoom unreachable_env demo_schema [] =
       Some (0, [Probe 0 1 0 0 (Some ''http://h/p0/1/0_0.jpg'')])"
proof -
  have a: "\<not> tile_ok unreachable_env demo_schema 0 1 0 0" by (rule unreachable_not_ok)
  have b: "probed unreachable_env demo_schema 0 1 0 0 = Probe 0 1 0 0 (Some ''http://h/p0/1/0_0.jpg'')"
    by (simp add: unreachable_env_def demo_eval)
  from get_max_zoom_first_probe_level_1 [of unreachable_env demo_schema "[]"] a b
  show ?thesis by (simp add: unreachable_not_ok)
qed

section \<open>Failing fetches\<close>

text \<open>
  Claim C6 asks for transport errors to be retried a bounded number of times and kept apart
  from non-success responses. The code has no retry and no such distinction. On the
  provider \<open>flaky_env\<close> every tile exists, and the request for level 2 raises a transport
  error: that URL is requested once, the zoom probe stops there and returns 1 as an
  ordinary result, although level 3 would have answered 200.
\<close>

theorem no_retry_counterexample:
  "http flaky_env ''http://h/p0/2/0_0.jpg'' = Inl OSError
   \<and> http flaky_env ''http://h/p0/3/0_0.jpg'' = Inr (200, [])
   \<and> get_max_zoom flaky_env demo_schema [] =
       Some (1, [Probe 0 1 0 0 (Some ''http://h/p0/1/0_0.jpg''),
                 Probe 0 2 0 0 (Some ''http://h/p0/2/0_0.jpg'')])"
proof -
  have a: "\<forall>j. 0 < j \<and> j \<le> 1 \<longrightarrow> tile_ok flaky_env demo_schema 0 j 0 0"
  proof (intro allI impI)
    fix j :: nat assume "0 < j \<and> j \<le> 1"
    then have "j = 1" by simp
    then show "tile_ok flaky_env demo_schema 0 j 0 0" by (simp add: flaky_env_def demo_eval)
  qed
  have b: "\<not> tile_ok flaky_env demo_schema 0 (1 + 1) 0 0"
    by (simp add: flaky_env_def demo_eval)
  have c: "map (\<lambda>j. probed flaky_env demo_schema 0 j 0 0) [0 + 1..<1 + 2] =
           [Probe 0 1 0 0 (Some ''http://h/p0/1/0_0.jpg''),
            Probe 0 2 0 0 (Some ''http://h/p0/2/0_0.jpg'')]"
    by (simp add: flaky_env_def demo_eval upt_rec)
  from zoom_run [OF a b, of "[]"] c show ?thesis
    by (simp add: get_max_zoom_def flaky_env_def provider_sel)
qed

text \<open>
  Claim C6, as amended. No fetch made while probing is retried, and a transport error is
  not told apart from a non-success response: a probe fails when the substitution raises,
  when the request raises, or when the status is not 200, and a failing probe of any of
  these kinds ends its loop at once, after that single attempt, as the absence of the
  tile; nothing is surfaced as an error.
\<close>

theorem probe_failure_ends_loop:
  "(isl (probe env sch 0 (l + 1) 0 0) \<longrightarrow>
      zoom_loop env sch l log = Some (l, log @ [probed env sch 0 (l + 1) 0 0]))
   \<and> (isl (probe env sch tile zoom y x) \<longrightarrow>
      col_loop env sch tile zoom y x r_array log =
        Some (r_array, log @ [probed env sch tile zoom y x]))
   \<and> (isl (probe env sch tile zoom y x) \<longleftrightarrow>
        (case substitute env sch [tile, zoom, y, x] of
           Inl e \<Rightarrow> True
         | Inr u \<Rightarrow> (case http env u of Inl e \<Rightarrow> True | Inr (code, body) \<Rightarrow> code \<noteq> 200)))"
proof (intro conjI impI)
  assume "isl (probe env sch 0 (l + 1) 0 0)"
  then show "zoom_loop env sch l log = Some (l, log @ [probed env sch 0 (l + 1) 0 0])"
    by (simp add: zoom_loop_stop tile_ok_def)
next
  assume "isl (probe env sch tile zoom y x)"
  then show "col_loop env sch tile zoom y x r_array log =
        Some (r_array, log @ [probed env sch tile zoom y x])"
    by (simp add: col_loop_stop tile_ok_def)
next
  show "isl (probe env sch tile zoom y x) \<longleftrightarrow>
        (case substitute env sch [tile, zoom, y, x] of
           Inl e \<Rightarrow> True
         | Inr u \<Rightarrow> (case http env u of Inl e \<Rightarrow> True | Inr (code, body) \<Rightarrow> code \<noteq> 200))"
    by (simp add: probe_def fetch_200_def split: sum.splits prod.splits)
qed

theorem probe_failure_ends_loop_witness:
  "isl (probe flaky_env demo_schema 0 (1 + 1) 0 0)
   \<and> zoom_loop flaky_env demo_schema 1 [] =
       Some (1, [Probe 0 2 0 0 (Some ''http://h/p0/2/0_0.jpg'')])"
proof -
  have "\<not> tile_ok flaky_env demo_schema 0 (1 + 1) 0 0"
    by (simp add: flaky_env_def demo_eval)
  then have a: "isl (probe flaky_env demo_schema 0 (1 + 1) 0 0)"
    by (simp add: tile_ok_def)
  have b: "probed flaky_env demo_schema 0 (1 + 1) 0 0 = Probe 0 2 0 0 (Some ''http://h/p0/2/0_0.jpg'')"
    by (simp add: flaky_env_def demo_eval)
  from probe_failure_ends_loop [of flaky_env demo_schema 1 "[]"] a b show ?thesis by simp
qed

section \<open>The grid of a face\<close>





lemma face_loop_run:
  assumes "\<forall>t \<in> set ts. exposes env sch t z (R t) (C t)"
  shows "face_loop env sch z ts acc log =
         Some (acc @ map (\<lambda>t. grid_of env sch t z (R t) (C t)) ts,
               log @ concat (map (\<lambda>t. face_probes env sch t z (R t) (C t)) ts))"
  using assms
proof (induction ts arbitrary: acc log)
  case Nil
  show ?case by simp
next
  case (Cons t ts)
  then have e: "exposes env sch t z (R t) (C t)" by simp
  have "row_loop env sch t z 0 [] log =
        Some (grid_of env sch t z (R t) (C t), log @ face_probes env sch t z (R t) (C t))"
    using row_run [OF e, of 0 "[]" log] by (simp add: grid_of_def face_probes_def)
  with Cons show ?case by simp
qed

lemma export_run:
  assumes "get_max_zoom env sch log = Some (z, log1)"
      and "\<forall>t < 6. exposes env sch t z (R t) (C t)"
  shows "export env sch log =
         Some (map (\<lambda>t. grid_of env sch t z (R t) (C t)) [0..<6],
               log1 @ concat (map (\<lambda>t. face_probes env sch t z (R t) (C t)) [0..<6]))"
proof -
  from assms(2) have "\<forall>t \<in> set [0..<6]. exposes env sch t z (R t) (C t)" by simp
  from face_loop_run [OF this, of "[]" log1] assms(1) show ?thesis
    by (simp add: export_def)
qed

lemma export_no_substitution:
  assumes "\<And>t z y x. isl (substitute env sch [t, z, y, x])"
  shows "export env sch log = Some (six_empty_grids, log @ invalid_schema_probes)"
proof -
  have no: "\<not> tile_ok env sch t z y x" for t z y x
    using assms [of t z y x] by (cases "substitute env sch [t, z, y, x]") (simp_all add: tile_ok_def probe_def)
  have pr: "probed env sch t z y x = Probe t z y x None" for t z y x
    using assms [of t z y x] by (cases "substitute env sch [t, z, y, x]") (simp_all add: probed_def)
  have z: "get_max_zoom env sch log = Some (0, log @ [Probe 0 1 0 0 None])"
    using zoom_loop_stop [of env sch 0 log] by (simp add: get_max_zoom_def no pr)
  have e: "\<forall>t < 6. exposes env sch t 0 0 0"
    by (simp add: exposes_def no)
  have "export env sch log =
         Some (map (\<lambda>t. grid_of env sch t 0 0 0) [0..<6],
               (log @ [Probe 0 1 0 0 None]) @ concat (map (\<lambda>t. face_probes env sch t 0 0 0) [0..<6]))"
    using z e by (rule export_run [where R = "\<lambda>t. 0" and C = "\<lambda>t. 0"])
  moreover have "[0..<6] = [0, 1, 2, 3, 4, 5 :: nat]" by (simp add: upt_rec)
  ultimately show ?thesis
    by (simp add: grid_of_def face_probes_def pr six_empty_grids_def invalid_schema_probes_def)
qed

lemma export_PyFalse:
  "export env PyFalse log = Some (six_empty_grids, log @ invalid_schema_probes)"
  by (rule export_no_substitution) (simp add: substitute_def)

text \<open>
  A whole run: on \<open>demo_env\<close> the zoom probe returns 1 and \<open>export\<close> returns the 2 by 3 grid
  of face 0 and five empty grids.
\<close>

lemma demo_export:
  "export demo_env demo_schema [] =
     Some ([grid_of demo_env demo_schema 0 1 2 3, [], [], [], [], []],
           zoom_probes demo_env demo_schema 1 @ face_probes demo_env demo_schema 0 1 2 3 @
           [Probe 1 1 0 0 (Some ''http://h/p1/1/0_0.jpg''), Probe 2 1 0 0 (Some ''http://h/p2/1/0_0.jpg''),
            Probe 3 1 0 0 (Some ''http://h/p3/1/0_0.jpg''), Probe 4 1 0 0 (Some ''http://h/p4/1/0_0.jpg''),
            Probe 5 1 0 0 (Some ''http://h/p5/1/0_0.jpg'')])"
proof -
  have "\<forall>j. 0 < j \<and> j \<le> 1 \<longrightarrow> tile_ok demo_env demo_schema 0 j 0 0"
  proof (intro allI impI)
    fix j :: nat assume "0 < j \<and> j \<le> 1"
    then have "j = 1" by simp
    then show "tile_ok demo_env demo_schema 0 j 0 0" by (simp add: demo_env_def demo_eval)
  qed
  moreover have "\<not> tile_ok demo_env demo_schema 0 (1 + 1) 0 0"
    by (simp add: demo_env_def demo_eval)
  ultimately have z: "get_max_zoom demo_env demo_schema [] = Some (1, [] @ zoom_probes demo_env demo_schema 1)"
    using zoom_run [of 0 1 demo_env demo_schema "[]"] by (simp add: get_max_zoom_def zoom_probes_def)
  have e: "\<forall>t < 6. exposes demo_env demo_schema t 1 (if t = 0 then 2 else 0) (if t = 0 then 3 else 0)"
  proof (intro allI impI)
    fix t :: nat assume "t < 6"
    then consider "t = 0" | "t = 1" | "t = 2" | "t = 3" | "t = 4" | "t = 5" by arith
    then show "exposes demo_env demo_schema t 1 (if t = 0 then 2 else 0) (if t = 0 then 3 else 0)"
      by cases (simp_all add: exposes_def demo_env_def demo_eval upt_rec)
  qed
  have "export demo_env demo_schema [] =
         Some (map (\<lambda>t. grid_of demo_env demo_schema t 1 (if t = 0 then 2 else 0) (if t = 0 then 3 else 0)) [0..<6],
               ([] @ zoom_probes demo_env demo_schema 1) @
               concat (map (\<lambda>t. face_probes demo_env demo_schema t 1 (if t = 0 then 2 else 0) (if t = 0 then 3 else 0)) [0..<6]))"
    using z e by (rule export_run)
  moreover have "[0..<6] = [0, 1, 2, 3, 4, 5 :: nat]" by (simp add: upt_rec)
  moreover have "grid_of demo_env demo_schema t 1 0 0 = []" for t by (simp add: grid_of_def)
  moreover have "face_probes demo_env demo_schema t 1 0 0 = [probed demo_env demo_schema t 1 0 0]" for t
    by (simp add: face_probes_def)
  ultimately show ?thesis by (simp add: demo_env_def demo_probed dec_small digit_char_def)
qed

section \<open>Six faces\<close>






section \<open>The six whole-face images\<close>

lemma sibling_update:
  assumes "5 \<le> length u"
  shows "sibling u i = u[length u - 5 := i]"
proof -
  have "Suc (length u - 5) = length u - 4" using assms by simp
  then show ?thesis
    using assms by (simp add: sibling_def upd_conv_take_nth_drop)
qed

lemma simple_loop_Inr:
  "simple_loop env u tiles acc log = (Inr files, log') \<longleftrightarrow>
     (\<forall>i \<in> set tiles. \<not> isl (fetch_200 env (sibling u i)))
     \<and> files = acc @ map (face_file env u) tiles
     \<and> log' = log @ map (\<lambda>i. Fetch (sibling u i)) tiles"
proof (induction tiles arbitrary: acc log)
  case Nil
  show ?case by auto
next
  case (Cons i tiles)
  show ?case
  proof (cases "fetch_200 env (sibling u i)")
    case (Inl e)
    then show ?thesis by simp
  next
    case (Inr body)
    then have "face_file env u i = \<lparr>file_name = None, content = body, mime_type = ''image/jpeg''\<rparr>"
      by (simp add: face_file_def)
    with Inr Cons.IH show ?thesis by simp
  qed
qed

lemma simple_loop_log:
  "\<exists>k \<le> length tiles. snd (simple_loop env u tiles acc log) =
      log @ map (\<lambda>i. Fetch (sibling u i)) (take k tiles)"
proof (induction tiles arbitrary: acc log)
  case Nil
  show ?case by simp
next
  case (Cons i tiles)
  show ?case
  proof (cases "fetch_200 env (sibling u i)")
    case (Inl e)
    then have "snd (simple_loop env u (i # tiles) acc log) =
               log @ map (\<lambda>i. Fetch (sibling u i)) (take 1 (i # tiles))" by simp
    then show ?thesis by (intro exI [of _ 1]) simp
  next
    case (Inr body)
    from Cons.IH [of "acc @ [\<lparr>file_name = None, content = body, mime_type = ''image/jpeg''\<rparr>]"
        "log @ [Fetch (sibling u i)]"]
    obtain k where k: "k \<le> length tiles"
      "snd (simple_loop env u tiles (acc @ [\<lparr>file_name = None, content = body, mime_type = ''image/jpeg''\<rparr>])
             (log @ [Fetch (sibling u i)])) =
       (log @ [Fetch (sibling u i)]) @ map (\<lambda>i. Fetch (sibling u i)) (take k tiles)" by blast
    with Inr have "snd (simple_loop env u (i # tiles) acc log) =
               log @ map (\<lambda>i. Fetch (sibling u i)) (take (Suc k) (i # tiles))" by simp
    with k(1) show ?thesis by (intro exI [of _ "Suc k"]) simp
  qed
qed

text \<open>
  Claim C7. For every seed URL of length at least 5 and every letter, the derived URL is
  the seed URL with the character five positions before the end replaced by the letter
  and every other character unchanged. \<open>export_simple\<close> returns normally exactly when every
  derived URL answers 200; it has then requested the derived URLs of the letters, one each
  and in their order, and recorded one file per letter in that order. In every run the
  requests made are the derived URLs of an initial part of the letters, in order: the
  first failure ends the run. The letters are \<open>frblud\<close> when the URL matched the
  face-letter pattern.
\<close>

theorem six_face_derivation:
  assumes "5 \<le> length u"
  shows "sibling u i = u[length u - 5 := i]
       \<and> length (sibling u i) = length u
       \<and> sibling u i ! (length u - 5) = i
       \<and> (\<forall>j < length u. j \<noteq> length u - 5 \<longrightarrow> sibling u i ! j = u ! j)
       \<and> (export_simple env u tiles [] = (Inr files, log) \<longleftrightarrow>
            (\<forall>i \<in> set tiles. \<not> isl (fetch_200 env (sibling u i)))
            \<and> files = map (face_file env u) tiles
            \<and> log = map (\<lambda>i. Fetch (sibling u i)) tiles)
       \<and> (\<exists>k \<le> length tiles.
            snd (export_simple env u tiles []) = map (\<lambda>i. Fetch (sibling u i)) (take k tiles))
       \<and> (first_match REGEX_FULL u = None \<and> re_search rx_letter u \<longrightarrow>
            make_tiles env u =
              Some (map_sum id Faces (fst (export_simple env u ''frblud'' [])),
                    snd (export_simple env u ''frblud'' []), []))"
proof -
  have pre: "\<exists>k \<le> length tiles.
            snd (export_simple env u tiles []) = map (\<lambda>i. Fetch (sibling u i)) (take k tiles)"
    using simple_loop_log [of tiles env u "[]" "[]"] by (simp add: export_simple_def)
  have upd: "sibling u i = u[length u - 5 := i]" using assms by (rule sibling_update)
  have pos: "length u - 5 < length u" using assms by simp
  have ex: "export_simple env u tiles [] = (Inr files, log) \<longleftrightarrow>
            (\<forall>i \<in> set tiles. \<not> isl (fetch_200 env (sibling u i)))
            \<and> files = map (face_file env u) tiles
            \<and> log = map (\<lambda>i. Fetch (sibling u i)) tiles"
    using simple_loop_Inr [of env u tiles "[]" "[]" files log] by (simp add: export_simple_def)
  have mk: "first_match REGEX_FULL u = None \<and> re_search rx_letter u \<longrightarrow>
            make_tiles env u =
              Some (map_sum id Faces (fst (export_simple env u ''frblud'' [])),
                    snd (export_simple env u ''frblud'' []), [])"
    by (simp add: make_tiles_def REGEX_SIMPLE_def split_def)
  from upd pos ex mk pre show ?thesis by (simp add: nth_list_update)
qed

lemma six_siblings:
  "map (sibling ''http://h/pano_f.jpg'') ''frblud'' =
     [''http://h/pano_f.jpg'', ''http://h/pano_r.jpg'', ''http://h/pano_b.jpg'',
      ''http://h/pano_l.jpg'', ''http://h/pano_u.jpg'', ''http://h/pano_d.jpg'']"
  by (simp add: sibling_def)

theorem six_face_derivation_witness:
  "5 \<le> length ''http://h/pano_f.jpg''
   \<and> sibling ''http://h/pano_f.jpg'' CHR ''r'' = ''http://h/pano_r.jpg''
   \<and> export_simple six_env ''http://h/pano_f.jpg'' ''frblud'' [] =
       (Inr (map (face_file six_env ''http://h/pano_f.jpg'') ''frblud''),
        [Fetch ''http://h/pano_f.jpg'', Fetch ''http://h/pano_r.jpg'', Fetch ''http://h/pano_b.jpg'',
         Fetch ''http://h/pano_l.jpg'', Fetch ''http://h/pano_u.jpg'', Fetch ''http://h/pano_d.jpg''])"
proof -
  have len: "5 \<le> length ''http://h/pano_f.jpg''" by simp
  have ok: "\<forall>i \<in> set ''frblud''. \<not> isl (fetch_200 six_env (sibling ''http://h/pano_f.jpg'' i))"
    by (simp add: fetch_200_def six_env_def provider_sel six_siblings)
  have lg: "map (\<lambda>i. Fetch (sibling ''http://h/pano_f.jpg'' i)) ''frblud'' =
        [Fetch ''http://h/pano_f.jpg'', Fetch ''http://h/pano_r.jpg'', Fetch ''http://h/pano_b.jpg'',
         Fetch ''http://h/pano_l.jpg'', Fetch ''http://h/pano_u.jpg'', Fetch ''http://h/pano_d.jpg'']"
    by (simp add: sibling_def)
  have r: "sibling ''http://h/pano_f.jpg'' CHR ''r'' = ''http://h/pano_r.jpg''"
    by (simp add: sibling_def)
  from six_face_derivation [OF len, of "CHR ''r''" six_env "''frblud''"
      "map (face_file six_env ''http://h/pano_f.jpg'') ''frblud''"
      "map (\<lambda>i. Fetch (sibling ''http://h/pano_f.jpg'' i)) ''frblud''"] ok
  have "export_simple six_env ''http://h/pano_f.jpg'' ''frblud'' [] =
       (Inr (map (face_file six_env ''http://h/pano_f.jpg'') ''frblud''),
        map (\<lambda>i. Fetch (sibling ''http://h/pano_f.jpg'' i)) ''frblud'')"
    by blast
  with len r lg show ?thesis by simp
qed

section \<open>The call of the stitcher\<close>

lemma export_full_calls:
  "export_full env u = Some (r, log, calls) \<Longrightarrow> \<exists>images. calls = [Multistitch_call images]"
  by (auto simp: export_full_def bind_eq_Some_conv split: prod.splits)

lemma make_tiles_calls:
  assumes "make_tiles env u = Some (r, log, calls)"
  shows "filter is_cubemap_call calls = []"
proof (cases "first_match REGEX_FULL u")
  case (Some m)
  obtain certainty kw where m: "m = (certainty, kw)" by (cases m)
  show ?thesis
  proof (cases "kw = []")
    case True
    with assms Some m obtain r' where "export_full env u = Some (r', log, calls)"
      by (auto simp: make_tiles_def bind_eq_Some_conv)
    from export_full_calls [OF this] show ?thesis by auto
  next
    case False
    with assms Some m show ?thesis by (simp add: make_tiles_def)
  qed
next
  case None
  with assms have "calls = []"
    by (auto simp: make_tiles_def split: option.splits if_splits prod.splits)
  then show ?thesis by simp
qed

lemma rotation_of_cases:
  "rotation_of c =
     (case properties c of
        None \<Rightarrow> (0, 0, 0)
      | Some props \<Rightarrow> (case map_of props ''rotation'' of None \<Rightarrow> (0, 0, 0) | Some r \<Rightarrow> r))"
  by (simp add: rotation_of_def split: option.splits)

text \<open>
  Claim C8. Whenever \<open>make_tiles\<close> produces a tile set, \<open>to_equirectangular\<close> calls
  \<open>cubemap_to_equirectangular\<close> exactly once, on that tile set, and the rotation it passes
  is the entry \<open>rotation\<close> of the conversion's properties as it stands, or \<open>(0, 0, 0)\<close> when
  the properties are absent or have no such entry.
\<close>

theorem rotation_passed_through:
  assumes "make_tiles env (url c) = Some (Inr stitched, log, calls)"
  shows "to_equirectangular env c =
           Some (cubemap_to_equirectangular env stitched (rotation_of c), log,
                 calls @ [Cubemap_call stitched (rotation_of c)])
         \<and> filter is_cubemap_call (calls @ [Cubemap_call stitched (rotation_of c)]) =
             [Cubemap_call stitched (rotation_of c)]
         \<and> rotation_of c =
             (case properties c of
                None \<Rightarrow> (0, 0, 0)
              | Some props \<Rightarrow>
                  (case map_of props ''rotation'' of None \<Rightarrow> (0, 0, 0) | Some r \<Rightarrow> r))"
  using assms make_tiles_calls [OF assms] rotation_of_cases [of c]
  by (simp add: to_equirectangular_def)

lemma six_make_tiles:
  "make_tiles six_env ''http://h/pano_f.jpg'' =
     Some (Inr (Faces (map (face_file six_env ''http://h/pano_f.jpg'') ''frblud'')),
           map (\<lambda>i. Fetch (sibling ''http://h/pano_f.jpg'' i)) ''frblud'', [])"
proof -
  have a: "first_match REGEX_FULL ''http://h/pano_f.jpg'' = None"
    by (simp add: REGEX_FULL_def re_search_def rx_full_def is_digit_def)
  have b: "re_search rx_letter ''http://h/pano_f.jpg''"
    by (simp add: re_search_def rx_letter_def)
  have c: "simple_loop six_env ''http://h/pano_f.jpg'' ''frblud'' [] [] =
        (Inr ([] @ map (face_file six_env ''http://h/pano_f.jpg'') ''frblud''),
         [] @ map (\<lambda>i. Fetch (sibling ''http://h/pano_f.jpg'' i)) ''frblud'')"
    unfolding simple_loop_Inr
    by (simp add: fetch_200_def six_env_def provider_sel six_siblings)
  from a b c show ?thesis
    by (simp add: make_tiles_def REGEX_SIMPLE_def export_simple_def)
qed

theorem rotation_passed_through_witness:
  "to_equirectangular six_env demo_conversion =
     Some (Inr (Faces (map (face_file six_env ''http://h/pano_f.jpg'') ''frblud''), (10, 20, 30)),
           map (\<lambda>i. Fetch (sibling ''http://h/pano_f.jpg'' i)) ''frblud'',
           [Cubemap_call (Faces (map (face_file six_env ''http://h/pano_f.jpg'') ''frblud'')) (10, 20, 30)])"
proof -
  have m: "make_tiles six_env (url demo_conversion) =
     Some (Inr (Faces (map (face_file six_env ''http://h/pano_f.jpg'') ''frblud'')),
           map (\<lambda>i. Fetch (sibling ''http://h/pano_f.jpg'' i)) ''frblud'', [])"
    using six_make_tiles by (simp add: demo_conversion_def)
  have r: "rotation_of demo_conversion = (10, 20, 30)"
    by (simp add: rotation_of_def demo_conversion_def)
  have s: "cubemap_to_equirectangular six_env = (\<lambda>stitched rot. Inr (stitched, rot))"
    by (simp add: six_env_def provider_def)
  from rotation_passed_through [OF m] r s show ?thesis by simp
qed

section \<open>A seed URL that cannot be fetched\<close>

lemma url_normalize_unreachable:
  "isl (fetch_200 env u) \<Longrightarrow> url_normalize env u log = (PyFalse, log @ [Fetch u])"
  by (cases "fetch_200 env u") (simp_all add: url_normalize_def)

lemma export_full_PyFalse:
  assumes "url_normalize env u [] = (PyFalse, log)"
  shows "export_full env u =
         Some (multistitch env six_empty_grids, log @ invalid_schema_probes,
               [Multistitch_call six_empty_grids])"
  using assms
  by (simp add: export_full_def export_PyFalse)

text \<open>
  Claim C4 wants an acquisition whose seed URL fails the verification fetch to end in an
  error, with no further request. The code: \<open>url_normalize\<close> returns \<open>False\<close>, which
  \<open>export_full\<close> does not look at; every substitution into \<open>False\<close> raises inside a
  \<open>try\<close>, so no further request is made, \<open>export\<close> returns six empty grids, and these are
  handed to \<open>multistitch\<close>. No error is raised by the engine.
\<close>

theorem unreachable_seed_not_reported:
  assumes "isl (fetch_200 env u)"
  shows "url_normalize env u [] = (PyFalse, [Fetch u])
         \<and> export_full env u =
             Some (multistitch env six_empty_grids, Fetch u # invalid_schema_probes,
                   [Multistitch_call six_empty_grids])
         \<and> wire (Fetch u # invalid_schema_probes) = [u]"
proof -
  have n: "url_normalize env u [] = (PyFalse, [Fetch u])"
    using url_normalize_unreachable [OF assms, of "[]"] by simp
  from export_full_PyFalse [OF n] n show ?thesis
    by (simp add: wire_def invalid_schema_probes_def)
qed

theorem unreachable_seed_not_reported_witness:
  "isl (fetch_200 demo_env (url missing_seed))
   \<and> test_url (url missing_seed) = CERTAINTY_PROBABLE
   \<and> to_equirectangular demo_env missing_seed =
       Some (Inr (Stitched six_empty_grids, (0, 0, 0)),
             Fetch ''http://h/p0/9/0_0.jpg'' # invalid_schema_probes,
             [Multistitch_call six_empty_grids,
              Cubemap_call (Stitched six_empty_grids) (0, 0, 0)])"
proof -
  have a: "isl (fetch_200 demo_env ''http://h/p0/9/0_0.jpg'')"
    by (simp add: fetch_200_def demo_env_def provider_sel demo_urls_def)
  have m: "re_search rx_full ''http://h/p0/9/0_0.jpg''"
    by (simp add: re_search_def rx_full_def is_digit_def)
  then have t: "test_url ''http://h/p0/9/0_0.jpg'' = CERTAINTY_PROBABLE"
    by (simp add: test_url_def REGEX_FULL_def)
  have s: "multistitch demo_env = Inr"
    "cubemap_to_equirectangular demo_env = (\<lambda>stitched rot. Inr (stitched, rot))"
    by (simp_all add: demo_env_def provider_def)
  from unreachable_seed_not_reported [OF a]
  have "export_full demo_env ''http://h/p0/9/0_0.jpg'' =
             Some (multistitch demo_env six_empty_grids,
                   Fetch ''http://h/p0/9/0_0.jpg'' # invalid_schema_probes,
                   [Multistitch_call six_empty_grids])" by simp
  with m s have "to_equirectangular demo_env missing_seed =
       Some (Inr (Stitched six_empty_grids, (0, 0, 0)),
             Fetch ''http://h/p0/9/0_0.jpg'' # invalid_schema_probes,
             [Multistitch_call six_empty_grids,
              Cubemap_call (Stitched six_empty_grids) (0, 0, 0)])"
    by (simp add: to_equirectangular_def make_tiles_def REGEX_FULL_def missing_seed_def
          rotation_of_def)
  with a t show ?thesis by (simp add: missing_seed_def)
qed

section \<open>Normalisation and substitution\<close>

lemma split_on_set: "p \<in> set (split_on d s) \<Longrightarrow> set p \<subseteq> set s"
proof (induction s arbitrary: p)
  case Nil
  then show ?case by simp
next
  case (Cons c cs)
  show ?case
  proof (cases "c = d")
    case True
    with Cons show ?thesis by auto
  next
    case False
    show ?thesis
    proof (cases "split_on d cs")
      case Nil
      with False Cons.prems show ?thesis by auto
    next
      case (Cons q qs)
      with False Cons.prems have "p = c # q \<or> p \<in> set qs" by auto
      moreover have "set q \<subseteq> set cs" "\<And>r. r \<in> set qs \<Longrightarrow> set r \<subseteq> set cs"
        using Cons.IH Cons by auto
      ultimately show ?thesis by auto
    qed
  qed
qed

lemma rstrip_digits_set: "set (rstrip_digits s) \<subseteq> set s"
proof -
  have "set (dropWhile is_digit (rev s)) \<subseteq> set (rev s)" by (auto dest: set_dropWhileD)
  then show ?thesis by (simp add: rstrip_digits_def)
qed

lemma join_last3:
  "join d (pre @ [a, b, c]) = concat (map (\<lambda>p. p @ d) pre) @ a @ d @ b @ d @ c"
proof (induction pre)
  case Nil
  show ?case by simp
next
  case (Cons p pre)
  obtain q qs where "pre @ [a, b, c] = q # qs" by (cases pre) auto
  with Cons show ?case by simp
qed

lemma update_last3_append:
  "parts = pre @ [a, b, c] \<Longrightarrow>
   parts[length parts - Suc 0 := x, length parts - 2 := y, length parts - 3 := z] = pre @ [z, y, x]"
  by (simp add: list_update_append)

lemma length3_conv: "length xs = Suc (Suc (Suc 0)) \<Longrightarrow> \<exists>a b c. xs = [a, b, c]"
  by (auto simp: length_Suc_conv)

lemma update_last3:
  assumes "3 \<le> length parts"
  shows "parts[length parts - Suc 0 := x, length parts - 2 := y, length parts - 3 := z] =
         take (length parts - 3) parts @ [z, y, x]"
proof -
  have "length (drop (length parts - 3) parts) = Suc (Suc (Suc 0))" using assms by simp
  from length3_conv [OF this] obtain a b c where d: "drop (length parts - 3) parts = [a, b, c]"
    by blast
  have "parts = take (length parts - 3) parts @ [a, b, c]"
    using d append_take_drop_id [of "length parts - 3" parts] by simp
  then show ?thesis by (rule update_last3_append)
qed

lemma url_normalize_template:
  assumes ok: "\<not> isl (fetch_200 env u)"
      and us: "CHR ''_'' \<in> set (split_on CHR ''/'' u ! (length (split_on CHR ''/'' u) - 1))"
      and n3: "3 \<le> length (split_on CHR ''/'' u)"
  shows "url_normalize env u log =
         (PyStr (join ''/'' (take (length (split_on CHR ''/'' u) - 3) (split_on CHR ''/'' u) @
                   [rstrip_digits (split_on CHR ''/'' u ! (length (split_on CHR ''/'' u) - 3)) @ ''%i'',
                    ''%i'', ''%i_%i.jpg''])),
          log @ [Fetch u])"
proof -
  let ?parts = "split_on CHR ''/'' u"
  let ?n = "length ?parts"
  obtain body where f: "fetch_200 env u = Inr body" using ok by (cases "fetch_200 env u") simp_all
  have nth': "?parts[?n - Suc 0 := ''%i_%i.jpg'', ?n - 2 := ''%i''] ! (?n - 3) = ?parts ! (?n - 3)"
    using n3 by simp
  have "\<not> ?n < 3" using n3 by simp
  with f us show ?thesis
    by (simp add: url_normalize_def Let_def nth' update_last3 [OF n3] del: list_update.simps)
qed

lemma template_round_trip:
  assumes pc: "CHR ''%'' \<notin> set u" and n3: "3 \<le> length (split_on CHR ''/'' u)"
  shows "py_format
           (join ''/'' (take (length (split_on CHR ''/'' u) - 3) (split_on CHR ''/'' u) @
              [rstrip_digits (split_on CHR ''/'' u ! (length (split_on CHR ''/'' u) - 3)) @ ''%i'',
               ''%i'', ''%i_%i.jpg'']))
           [a, b, c, d] =
         Inr (join ''/'' (take (length (split_on CHR ''/'' u) - 3) (split_on CHR ''/'' u) @
              [rstrip_digits (split_on CHR ''/'' u ! (length (split_on CHR ''/'' u) - 3)) @ dec a,
               dec b, dec c @ ''_'' @ dec d @ ''.jpg'']))"
proof -
  let ?parts = "split_on CHR ''/'' u"
  let ?n = "length ?parts"
  let ?pre = "concat (map (\<lambda>p. p @ ''/'') (take (?n - 3) ?parts))"
  let ?stem = "rstrip_digits (?parts ! (?n - 3))"
  have parts: "\<And>p. p \<in> set ?parts \<Longrightarrow> CHR ''%'' \<notin> set p"
    using split_on_set [of _ "CHR ''/''" u] pc by blast
  have "\<And>p. p \<in> set (take (?n - 3) ?parts) \<Longrightarrow> CHR ''%'' \<notin> set p"
    using parts by (blast dest: in_set_takeD)
  then have pre: "CHR ''%'' \<notin> set ?pre" by auto
  have "?parts ! (?n - 3) \<in> set ?parts" using n3 by simp
  then have stem: "CHR ''%'' \<notin> set ?stem"
    using parts rstrip_digits_set [of "?parts ! (?n - 3)"] by blast
  from pre stem have p0: "CHR ''%'' \<notin> set (?pre @ ?stem)" by simp
  have "py_format ((?pre @ ?stem) @ ''%i'' @ ''/'' @ ''%i'' @ ''/'' @ ''%i'' @ ''_'' @ ''%i'' @ ''.jpg'')
          [a, b, c, d] =
        Inr ((?pre @ ?stem) @ dec a @ ''/'' @ dec b @ ''/'' @ dec c @ ''_'' @ dec d @ ''.jpg'')"
    by (rule py_format_template [OF p0]) simp_all
  then show ?thesis by (simp add: join_last3)
qed

lemma demo_normalize:
  "url_normalize demo_env ''http://h/p0/1/0_0.jpg'' [] = (demo_schema, [Fetch ''http://h/p0/1/0_0.jpg''])"
  by (simp add: url_normalize_def fetch_200_def demo_env_def provider_sel demo_urls_def
        rstrip_digits_def is_digit_def Let_def demo_schema_def)

text \<open>
  Claim C5 says that substituting integers into the normalised schema gives the URL back
  with its last three segments rewritten. \<open>url_normalize_template\<close> and
  \<open>template_round_trip\<close> above show this for every reachable URL of at least three
  segments that has no \<open>%\<close> in it. \<open>url_normalize\<close> copies the other segments into the
  template as they are, so a \<open>%\<close> of the URL becomes the start of a conversion: for the URL
  \<open>percent_url\<close> the template is returned, every substitution into it raises, and
  \<open>export\<close> gives six empty grids without a single request, on a server where every tile
  exists.
\<close>

theorem percent_url_breaks_schema:
  "url_normalize always_env percent_url [] =
     (PyStr ''http://h/a%20b/p%i/%i/%i_%i.jpg'', [Fetch percent_url])
   \<and> py_format ''http://h/a%20b/p%i/%i/%i_%i.jpg'' [5, 6, 7, 8] = Inl ValueError
   \<and> export always_env (PyStr ''http://h/a%20b/p%i/%i/%i_%i.jpg'') [Fetch percent_url] =
       Some (six_empty_grids, Fetch percent_url # invalid_schema_probes)"
proof -
  have a: "url_normalize always_env percent_url [] =
     (PyStr ''http://h/a%20b/p%i/%i/%i_%i.jpg'', [Fetch percent_url])"
    by (simp add: url_normalize_def percent_url_def fetch_200_def always_env_def provider_sel
          rstrip_digits_def is_digit_def Let_def)
  have b: "py_format ''http://h/a%20b/p%i/%i/%i_%i.jpg'' [t, z, y, x] = Inl ValueError" for t z y x
    by (simp add: py_format_def emit_def flags_step_def dot_step_def len_step_def conv_step_def
          is_digit_def digit_val_def SSIZE_MAX_def no_spec_def)
  have "isl (substitute always_env (PyStr ''http://h/a%20b/p%i/%i/%i_%i.jpg'') [t, z, y, x])" for t z y x
    by (simp add: substitute_def always_env_def provider_sel b)
  from export_no_substitution [OF this, of "[Fetch percent_url]"] a b [of 5 6 7 8]
  show ?thesis by simp
qed

end
